theory Spec2Isabelle
  imports Complex_Main "HOL-Library.Sublist"
begin

section \<open>Strings of UTF-16 code units\<close>

text \<open>
  A JavaScript string is a sequence of 16-bit code units, and the regular expressions of
  \<^verbatim>\<open>src/lib/vttParser.ts\<close> (none has the \<^verbatim>\<open>u\<close> flag) work on code units.
  A code unit is modelled by its number; the functions below treat every number the same
  way, so what is proved for all lists of numbers holds for all strings.
  \<open>js\<close> turns a HOL string literal into such a string.
\<close>

type_synonym code_unit = nat
type_synonym jsstring = "code_unit list"

abbreviation cu :: "char \<Rightarrow> code_unit" where
  "cu c \<equiv> of_char c"

definition js :: "string \<Rightarrow> jsstring" where
  "js s = map cu s"

text \<open>
  \<^verbatim>\<open>\s\<close> and \<^verbatim>\<open>String.prototype.trim\<close> use the same set: ECMAScript's WhiteSpace
  (TAB, VT, FF, SP, NBSP, ZWNBSP and the Unicode space separators) and LineTerminator
  (LF, CR, LS, PS).
\<close>

definition is_space :: "code_unit \<Rightarrow> bool" where
  "is_space c \<longleftrightarrow>
     c = 9 \<or> c = 10 \<or> c = 11 \<or> c = 12 \<or> c = 13 \<or> c = 32 \<or> c = 160 \<or> c = 5760 \<or>
     (8192 \<le> c \<and> c \<le> 8202) \<or> c = 8232 \<or> c = 8233 \<or> c = 8239 \<or> c = 8287 \<or>
     c = 12288 \<or> c = 65279"

text \<open>\<^verbatim>\<open>.\<close> (no \<^verbatim>\<open>s\<close> flag) matches every code unit but the four line terminators.\<close>

definition is_line_terminator :: "code_unit \<Rightarrow> bool" where
  "is_line_terminator c \<longleftrightarrow> c = 10 \<or> c = 13 \<or> c = 8232 \<or> c = 8233"

text \<open>\<^verbatim>\<open>\w\<close> is \<^verbatim>\<open>[A-Za-z0-9_]\<close>, also under the \<^verbatim>\<open>i\<close> flag.\<close>

definition is_word :: "code_unit \<Rightarrow> bool" where
  "is_word c \<longleftrightarrow>
     (48 \<le> c \<and> c \<le> 57) \<or> (65 \<le> c \<and> c \<le> 90) \<or> c = 95 \<or> (97 \<le> c \<and> c \<le> 122)"

text \<open>The class \<^verbatim>\<open>[.,!?;:]\<close>.\<close>

definition is_punct :: "code_unit \<Rightarrow> bool" where
  "is_punct c \<longleftrightarrow>
     c = cu CHR ''.'' \<or> c = cu CHR '','' \<or> c = cu CHR ''!'' \<or> c = cu CHR ''?'' \<or>
     c = cu CHR '';'' \<or> c = cu CHR '':''"

text \<open>
  \<^verbatim>\<open>toUpperCase\<close> is only ever applied to a match of \<^verbatim>\<open>^\w\<close> or \<^verbatim>\<open>\.\s+\w\<close>:
  a full stop, white space and one ASCII word character. On those the Unicode mapping
  changes \<^verbatim>\<open>a\<close>..\<^verbatim>\<open>z\<close> only. The same function is the case folding of the
  \<^verbatim>\<open>i\<close> flag against an ASCII pattern character: a code unit from 128 on never folds
  to an ASCII one.
\<close>

definition upper_unit :: "code_unit \<Rightarrow> code_unit" where
  "upper_unit c = (if 97 \<le> c \<and> c \<le> 122 then c - 32 else c)"

definition toUpperCase :: "jsstring \<Rightarrow> jsstring" where
  "toUpperCase s = map upper_unit s"

subsection \<open>String methods\<close>

text \<open>\<^verbatim>\<open>s.split(sep)\<close> for a separator of one code unit; the result is never empty.\<close>

fun split_on :: "code_unit \<Rightarrow> jsstring \<Rightarrow> jsstring list" where
  "split_on sep [] = [[]]"
| "split_on sep (c # cs) =
     (if c = sep then [] # split_on sep cs
      else (case split_on sep cs of [] \<Rightarrow> [[c]] | l # ls \<Rightarrow> (c # l) # ls))"

definition trim :: "jsstring \<Rightarrow> jsstring" where
  "trim s = rev (dropWhile is_space (rev (dropWhile is_space s)))"

text \<open>\<^verbatim>\<open>s.includes(t)\<close> and \<^verbatim>\<open>s.startsWith(t)\<close>.\<close>

definition includesStr :: "jsstring \<Rightarrow> jsstring \<Rightarrow> bool" where
  "includesStr s t \<longleftrightarrow> sublist t s"

definition startsWith :: "jsstring \<Rightarrow> jsstring \<Rightarrow> bool" where
  "startsWith s t \<longleftrightarrow> prefix t s"

text \<open>\<^verbatim>\<open>xs.join(sep)\<close>.\<close>

fun join :: "jsstring \<Rightarrow> jsstring list \<Rightarrow> jsstring" where
  "join sep [] = []"
| "join sep [x] = x"
| "join sep (x # y # ys) = x @ sep @ join sep (y # ys)"

section \<open>The normalizer: \<^verbatim>\<open>parseVTT\<close>\<close>

subsection \<open>The voice-tag match\<close>

text \<open>
  \<^verbatim>\<open>line.match(/<v[^>]*>(.*?)<\/v>/)\<close>. \<open>lazy_until lit s\<close> is \<^verbatim>\<open>(.*?)\<close> followed
  by the literal \<open>lit\<close>, tried at the start of \<open>s\<close>: the shortest run of code units
  that are no line terminators and after which \<open>lit\<close> stands; it returns the group.
  \<open>voice_at s\<close> is the whole pattern tried at the start of \<open>s\<close>: \<^verbatim>\<open>[^>]*\<close> cannot step
  over a \<^verbatim>\<open>>\<close> and is followed by one, so it ends at the first \<^verbatim>\<open>>\<close> after
  \<^verbatim>\<open><v\<close>. \<open>voice_match\<close> tries every start position from the left and returns group 1
  of the first match (\<open>None\<close> when \<^verbatim>\<open>match\<close> is \<^verbatim>\<open>null\<close>).
\<close>

fun lazy_until :: "jsstring \<Rightarrow> jsstring \<Rightarrow> jsstring option" where
  "lazy_until lit [] = (if prefix lit [] then Some [] else None)"
| "lazy_until lit (c # cs) =
     (if prefix lit (c # cs) then Some []
      else if is_line_terminator c then None
      else map_option ((#) c) (lazy_until lit cs))"

definition voice_at :: "jsstring \<Rightarrow> jsstring option" where
  "voice_at s =
     (if prefix (js ''<v'') s
      then (case dropWhile (\<lambda>c. c \<noteq> cu CHR ''>'') (drop 2 s) of
              [] \<Rightarrow> None
            | _ # r \<Rightarrow> lazy_until (js ''</v>'') r)
      else None)"

fun voice_match :: "jsstring \<Rightarrow> jsstring option" where
  "voice_match [] = None"
| "voice_match (c # cs) =
     (case voice_at (c # cs) of Some g \<Rightarrow> Some g | None \<Rightarrow> voice_match cs)"

subsection \<open>The line-classification loop\<close>

record loop_state =
  transcriptLines :: "jsstring list"
  skipNext :: bool

text \<open>The four tests of the loop body, on the trimmed line, in the order of the source.\<close>

definition is_header_or_blank :: "jsstring \<Rightarrow> bool" where
  "is_header_or_blank line \<longleftrightarrow> line = js ''WEBVTT'' \<or> line = []"

definition is_cue_id :: "jsstring \<Rightarrow> bool" where
  "is_cue_id line \<longleftrightarrow>
     includesStr line (js ''-'') \<and> 4 \<le> length (split_on (cu CHR ''-'') line)"

definition is_timing :: "jsstring \<Rightarrow> bool" where
  "is_timing line \<longleftrightarrow> includesStr line (js ''-->'')"

definition is_voice :: "jsstring \<Rightarrow> bool" where
  "is_voice line \<longleftrightarrow> startsWith line (js ''<v '')"

text \<open>
  One iteration of the \<^verbatim>\<open>for\<close> loop on the raw line \<^verbatim>\<open>lines[i]\<close>. Each
  \<^verbatim>\<open>continue\<close> returns the state as it is at that point, so the final
  \<^verbatim>\<open>skipNext = false\<close> is reached by the last branch only.
\<close>

definition iteration :: "jsstring \<Rightarrow> loop_state \<Rightarrow> loop_state" where
  "iteration raw st =
     (let line = trim raw in
      if is_header_or_blank line then st
      else if is_cue_id line then st\<lparr>skipNext := True\<rparr>
      else if is_timing line then st\<lparr>skipNext := True\<rparr>
      else if is_voice line then
        (case voice_match line of
           None \<Rightarrow> st\<lparr>skipNext := False\<rparr>
         | Some g \<Rightarrow>
             (if g \<noteq> [] then st\<lparr>transcriptLines := transcriptLines st @ [g]\<rparr> else st)
               \<lparr>skipNext := False\<rparr>)
      else
        (if \<not> skipNext st \<and> line \<noteq> []
         then st\<lparr>transcriptLines := transcriptLines st @ [line]\<rparr> else st)
          \<lparr>skipNext := False\<rparr>)"

fun loop :: "jsstring list \<Rightarrow> loop_state \<Rightarrow> loop_state" where
  "loop [] st = st"
| "loop (raw # rest) st = loop rest (iteration raw st)"

definition init_state :: loop_state where
  "init_state = \<lparr>transcriptLines = [], skipNext = False\<rparr>"

subsection \<open>Post-processing: \<^verbatim>\<open>enhanceTranscript\<close>\<close>

lemma length_dropWhile_less [termination_simp]:
  "length (dropWhile P xs) < Suc (length xs)"
  by (simp add: less_Suc_eq_le length_dropWhile_le)

lemma length_dropWhile_pred [termination_simp]:
  "length (dropWhile P xs) - Suc 0 < Suc (length xs)"
  using length_dropWhile_le [of P xs] by simp

lemma length_dropWhile_pred_less [termination_simp]:
  "length (dropWhile P xs) - Suc 0 < Suc (Suc (length xs))"
  using length_dropWhile_le [of P xs] by simp

text \<open>
  \<^verbatim>\<open>replace(/<v[^>]*>/gi, '')\<close>: at a \<^verbatim>\<open><\<close> followed by \<^verbatim>\<open>v\<close> or \<^verbatim>\<open>V\<close>, with a
  \<^verbatim>\<open>>\<close> somewhere after, everything up to the first such \<^verbatim>\<open>>\<close> is removed and the
  scan goes on behind it; otherwise the code unit is kept.
\<close>

fun strip_voice_open :: "jsstring \<Rightarrow> jsstring" where
  "strip_voice_open [] = []"
| "strip_voice_open [c] = [c]"
| "strip_voice_open (c # d # ds) =
     (if c = cu CHR ''<'' \<and> (d = cu CHR ''v'' \<or> d = cu CHR ''V'') \<and> cu CHR ''>'' \<in> set ds
      then strip_voice_open (tl (dropWhile (\<lambda>x. x \<noteq> cu CHR ''>'') ds))
      else c # strip_voice_open (d # ds))"

text \<open>\<^verbatim>\<open>replace(/<\/v>/gi, '')\<close>.\<close>

fun strip_voice_close :: "jsstring \<Rightarrow> jsstring" where
  "strip_voice_close (a # b # c # d # rest) =
     (if a = cu CHR ''<'' \<and> b = cu CHR ''/'' \<and> (c = cu CHR ''v'' \<or> c = cu CHR ''V'') \<and>
         d = cu CHR ''>''
      then strip_voice_close rest
      else a # strip_voice_close (b # c # d # rest))"
| "strip_voice_close s = s"

text \<open>
  \<^verbatim>\<open>replace(/<[^>]+>/g, '')\<close>: as the first step, but the code unit after \<^verbatim>\<open><\<close> is
  any but \<^verbatim>\<open>>\<close>.
\<close>

fun strip_tags :: "jsstring \<Rightarrow> jsstring" where
  "strip_tags [] = []"
| "strip_tags [c] = [c]"
| "strip_tags (c # d # ds) =
     (if c = cu CHR ''<'' \<and> d \<noteq> cu CHR ''>'' \<and> cu CHR ''>'' \<in> set ds
      then strip_tags (tl (dropWhile (\<lambda>x. x \<noteq> cu CHR ''>'') ds))
      else c # strip_tags (d # ds))"

text \<open>\<^verbatim>\<open>replace(/\s+/g, ' ')\<close>: every maximal run of white space becomes one space.\<close>

fun collapse_ws :: "jsstring \<Rightarrow> jsstring" where
  "collapse_ws [] = []"
| "collapse_ws (c # cs) =
     (if is_space c then cu CHR '' '' # collapse_ws (dropWhile is_space cs)
      else c # collapse_ws cs)"

text \<open>
  \<^verbatim>\<open>replace(/\s+([.,!?;:])/g, '$1')\<close>: \<^verbatim>\<open>\s+\<close> must reach the end of the run of white
  space, since the class holds no white space; the run is dropped when a punctuation mark
  follows it.
\<close>

fun space_before_punct :: "jsstring \<Rightarrow> jsstring" where
  "space_before_punct [] = []"
| "space_before_punct (c # cs) =
     (if is_space c \<and>
         (case dropWhile is_space cs of [] \<Rightarrow> False | p # _ \<Rightarrow> is_punct p)
      then space_before_punct (dropWhile is_space cs)
      else c # space_before_punct cs)"

text \<open>
  \<^verbatim>\<open>replace(/([.,!?;:])(\S)/g, '$1 $2')\<close>: a match takes both code units, and the scan
  goes on behind the second.
\<close>

fun space_after_punct :: "jsstring \<Rightarrow> jsstring" where
  "space_after_punct (p # c # rest) =
     (if is_punct p \<and> \<not> is_space c then p # cu CHR '' '' # c # space_after_punct rest
      else p # space_after_punct (c # rest))"
| "space_after_punct s = s"

text \<open>
  \<^verbatim>\<open>replace(/\b(\w+)\s+\1\b/gi, '$1')\<close>. \<open>repeat_at s\<close> is \<^verbatim>\<open>(\w+)\s+\1\b\<close> tried at
  the start of \<open>s\<close>: the group is the whole word there (a shorter one is followed by a
  word character, not by white space), \<^verbatim>\<open>\s+\<close> is the whole run of white space (the
  back reference starts with a word character), the back reference compares without case,
  and the closing \<^verbatim>\<open>\b\<close> asks for the end of the string or a code unit that is no word
  character. It returns the group and what is left of \<open>s\<close> behind the match.
  The opening \<^verbatim>\<open>\b\<close> in front of a word character holds when the code unit before
  is no word character (or there is none): the flag of \<open>collapse_repeats\<close> says whether
  the code unit before is a word character.
\<close>

definition repeat_at :: "jsstring \<Rightarrow> (jsstring \<times> jsstring) option" where
  "repeat_at s =
     (let w = takeWhile is_word s;
          r1 = dropWhile is_word s;
          r2 = dropWhile is_space r1;
          r3 = drop (length w) r2
      in if w \<noteq> [] \<and> r2 \<noteq> r1 \<and> length w \<le> length r2 \<and>
            toUpperCase (take (length w) r2) = toUpperCase w \<and>
            (case r3 of [] \<Rightarrow> True | d # _ \<Rightarrow> \<not> is_word d)
         then Some (w, r3) else None)"

lemma repeat_at_shorter: "repeat_at s = Some (w, r) \<Longrightarrow> length r < length s"
  by (cases s) (auto simp: repeat_at_def Let_def split: if_splits
      intro!: le_imp_less_Suc diff_le_mono2 le_trans [OF diff_le_self]
        le_trans [OF length_dropWhile_le] length_dropWhile_le)

function collapse_repeats :: "bool \<Rightarrow> jsstring \<Rightarrow> jsstring" where
  "collapse_repeats pw [] = []"
| "collapse_repeats pw (c # cs) =
     (case (if pw then None else repeat_at (c # cs)) of
        Some (w, rest) \<Rightarrow> w @ collapse_repeats True rest
      | None \<Rightarrow> c # collapse_repeats (is_word c) cs)"
  by pat_completeness auto
termination
  by (relation "measure (\<lambda>(pw, s). length s)")
    (auto split: if_splits dest: repeat_at_shorter)

text \<open>
  \<^verbatim>\<open>replace(/(^\w|\.\s+\w)/g, (match) => match.toUpperCase())\<close>. Without the
  \<^verbatim>\<open>m\<close> flag \<^verbatim>\<open>^\<close> holds at index 0 only, so the first alternative is tried once, by
  \<open>capitalize\<close>; \<open>cap_after_stop\<close> is the second alternative at every later position:
  a full stop, the whole run of white space (at least one), one word character.
\<close>

fun cap_after_stop :: "jsstring \<Rightarrow> jsstring" where
  "cap_after_stop [] = []"
| "cap_after_stop (c # cs) =
     (if c = cu CHR ''.'' \<and> dropWhile is_space cs \<noteq> cs \<and>
         (case dropWhile is_space cs of [] \<Rightarrow> False | w # _ \<Rightarrow> is_word w)
      then toUpperCase (c # takeWhile is_space cs @ [hd (dropWhile is_space cs)]) @
           cap_after_stop (tl (dropWhile is_space cs))
      else c # cap_after_stop cs)"

definition capitalize :: "jsstring \<Rightarrow> jsstring" where
  "capitalize s =
     (case s of
        [] \<Rightarrow> []
      | c # cs \<Rightarrow>
          if is_word c then toUpperCase [c] @ cap_after_stop cs else cap_after_stop (c # cs))"

text \<open>The pipeline of \<^verbatim>\<open>enhanceTranscript\<close>, in the order of the source.\<close>

definition enhanceTranscript :: "jsstring \<Rightarrow> jsstring" where
  "enhanceTranscript text =
     trim (collapse_ws (capitalize (collapse_repeats False (space_after_punct
       (space_before_punct (collapse_ws (strip_tags (strip_voice_close
         (strip_voice_open text)))))))))"

definition parseVTT :: "jsstring \<Rightarrow> jsstring" where
  "parseVTT vttContent =
     enhanceTranscript (trim (join (js '' '')
       (transcriptLines (loop (split_on (cu CHR 0x0A) vttContent) init_state))))"

section \<open>The result table: \<^verbatim>\<open>ResultsTable\<close>\<close>

text \<open>
  A \<^verbatim>\<open>UserStory\<close> has the index signature \<^verbatim>\<open>[key: string]: string | undefined\<close>.
  A record is an object decoded from JSON: its own properties, as pairs of key and value in
  the order in which they were created (the insertion order), on top of
  \<^verbatim>\<open>Object.prototype\<close>.
\<close>

type_synonym UserStory = "(jsstring \<times> jsstring) list"

text \<open>
  \<^verbatim>\<open>Object.keys\<close> does not list the keys in insertion order throughout: the keys that
  are array indices (the decimal numeral, with no leading zero, of a number below
  \<open>2\<^sup>3\<^sup>2 - 1\<close>) come first, in ascending order of their number, and the other keys
  follow in insertion order.
\<close>

definition is_digit :: "code_unit \<Rightarrow> bool" where
  "is_digit c \<longleftrightarrow> 48 \<le> c \<and> c \<le> 57"

definition index_value :: "jsstring \<Rightarrow> nat" where
  "index_value key = foldl (\<lambda>n c. 10 * n + (c - 48)) 0 key"

definition is_array_index :: "jsstring \<Rightarrow> bool" where
  "is_array_index key \<longleftrightarrow>
     key \<noteq> [] \<and> list_all is_digit key \<and> (hd key \<noteq> cu CHR ''0'' \<or> length key = 1) \<and>
     index_value key < 4294967295"

definition object_keys :: "(jsstring \<times> 'v) list \<Rightarrow> jsstring list" where
  "object_keys obj =
     sort_key index_value (filter is_array_index (map fst obj)) @
     filter (\<lambda>key. \<not> is_array_index key) (map fst obj)"

text \<open>
  \<^verbatim>\<open>row[header]\<close> reads through the prototype chain: the value of the own property
  \<^verbatim>\<open>header\<close>; when there is none, the member of \<^verbatim>\<open>Object.prototype\<close> of that name (a
  function, or the prototype itself for \<^verbatim>\<open>__proto__\<close>); \<^verbatim>\<open>undefined\<close> otherwise.
\<close>

definition object_prototype_names :: "jsstring list" where
  "object_prototype_names =
     [js ''constructor'', js ''hasOwnProperty'', js ''isPrototypeOf'',
      js ''propertyIsEnumerable'', js ''toLocaleString'', js ''toString'', js ''valueOf'',
      js ''__proto__'', js ''__defineGetter__'', js ''__defineSetter__'',
      js ''__lookupGetter__'', js ''__lookupSetter__'']"

datatype js_value = Undefined | StringValue jsstring | Inherited jsstring

definition get_field :: "UserStory \<Rightarrow> jsstring \<Rightarrow> js_value" where
  "get_field row header =
     (case map_of row header of
        Some v \<Rightarrow> StringValue v
      | None \<Rightarrow> if header \<in> set object_prototype_names then Inherited header else Undefined)"

text \<open>
  \<^verbatim>\<open>headers.add(key)\<close> on a \<^verbatim>\<open>Set\<close>, which keeps its members in the order in which
  they were first added; \<^verbatim>\<open>Array.from(headers)\<close> lists them in that order.
\<close>

definition set_add :: "jsstring list \<Rightarrow> jsstring \<Rightarrow> jsstring list" where
  "set_add headers key = (if key \<in> set headers then headers else headers @ [key])"

definition getHeaders :: "UserStory list \<Rightarrow> jsstring list" where
  "getHeaders results =
     fold (\<lambda>story headers. fold (\<lambda>key hs. set_add hs key) (object_keys story) headers)
       results []"

text \<open>
  \<^verbatim>\<open>row[header] || ''\<close>: \<^verbatim>\<open>undefined\<close> and the empty string are falsy, a function and
  an object are truthy.
\<close>

definition or_empty :: "js_value \<Rightarrow> js_value" where
  "or_empty v =
     (case v of
        Undefined \<Rightarrow> StringValue []
      | StringValue s \<Rightarrow> if s = [] then StringValue [] else StringValue s
      | Inherited name \<Rightarrow> Inherited name)"

text \<open>
  The text that \<^verbatim>\<open>join\<close> makes of an element. A member of \<^verbatim>\<open>Object.prototype\<close> is
  printed as V8 prints it: a built-in function as
  \<^verbatim>\<open>function name() { [native code] }\<close> (the name of \<^verbatim>\<open>constructor\<close> is
  \<^verbatim>\<open>Object\<close>), the prototype object as \<^verbatim>\<open>[object Object]\<close>. Other engines set the white
  space of the function text differently; in none is the text empty.
\<close>

definition inherited_text :: "jsstring \<Rightarrow> jsstring" where
  "inherited_text name =
     (if name = js ''__proto__'' then js ''[object Object]''
      else js ''function '' @ (if name = js ''constructor'' then js ''Object'' else name) @
           js ''() { [native code] }'')"

definition to_text :: "js_value \<Rightarrow> jsstring" where
  "to_text v =
     (case v of Undefined \<Rightarrow> [] | StringValue s \<Rightarrow> s | Inherited name \<Rightarrow> inherited_text name)"

definition cell :: "UserStory \<Rightarrow> jsstring \<Rightarrow> jsstring" where
  "cell row header = to_text (or_empty (get_field row header))"

text \<open>
  \<^verbatim>\<open>copyToClipboard\<close>: the rows to copy, one line of text per row, and the text handed
  to the clipboard. \<^verbatim>\<open>selectedRows\<close> is a set of row indices. The component renders
  nothing (and offers no copy button) when \<^verbatim>\<open>results\<close> is empty.
\<close>

definition rowsToCopy :: "UserStory list \<Rightarrow> nat set \<Rightarrow> UserStory list" where
  "rowsToCopy results selectedRows =
     (if selectedRows \<noteq> {}
      then map fst (filter (\<lambda>(row, index). index \<in> selectedRows)
             (zip results [0..<length results]))
      else results)"

definition dataRow :: "jsstring list \<Rightarrow> UserStory \<Rightarrow> jsstring" where
  "dataRow headers row = join [cu CHR 0x09] (map (\<lambda>header. cell row header) headers)"

definition tsvContent :: "UserStory list \<Rightarrow> nat set \<Rightarrow> jsstring" where
  "tsvContent results selectedRows =
     (let headers = getHeaders results;
          headerRow = join [cu CHR 0x09] headers;
          dataRows = join [cu CHR 0x0A]
            (map (dataRow headers) (rowsToCopy results selectedRows))
      in headerRow @ [cu CHR 0x0A] @ dataRows)"

text \<open>
  The header cell of the rendered table:
  \<^verbatim>\<open>header.replace(/([A-Z])/g, ' $1').trim().replace(/^\w/, c => c.toUpperCase())\<close>.
\<close>

definition space_capitals :: "jsstring \<Rightarrow> jsstring" where
  "space_capitals header =
     concat (map (\<lambda>c. if 65 \<le> c \<and> c \<le> 90 then [cu CHR '' '', c] else [c]) header)"

definition capitalize_first :: "jsstring \<Rightarrow> jsstring" where
  "capitalize_first s =
     (case s of [] \<Rightarrow> [] | c # cs \<Rightarrow> if is_word c then toUpperCase [c] @ cs else c # cs)"

definition displayHeader :: "jsstring \<Rightarrow> jsstring" where
  "displayHeader header = capitalize_first (trim (space_capitals header))"

section \<open>Detecting the record collection in the provider's reply\<close>

text \<open>
  What \<^verbatim>\<open>JSON.parse\<close> returns. The members of an object are listed in insertion
  order. A number is only ever tested for truth, so its value is kept as a rational.
\<close>

datatype json =
    JNull
  | JBool bool
  | JNumber rat
  | JString jsstring
  | JArray "json list"
  | JObject "(jsstring \<times> json) list"

datatype js_error = TypeError

fun is_array :: "json option \<Rightarrow> bool" where
  "is_array (Some (JArray xs)) = True"
| "is_array v = False"

text \<open>
  The elements of a value that is an array, for the three assignments of an array to
  \<^verbatim>\<open>userStories\<close>; each is guarded by \<^verbatim>\<open>Array.isArray\<close>.
\<close>

fun array_items :: "json option \<Rightarrow> json list" where
  "array_items (Some (JArray xs)) = xs"
| "array_items v = []"

text \<open>Truthiness of a value; \<open>None\<close> is \<^verbatim>\<open>undefined\<close>.\<close>

fun truthy :: "json option \<Rightarrow> bool" where
  "truthy None = False"
| "truthy (Some JNull) = False"
| "truthy (Some (JBool b)) = b"
| "truthy (Some (JNumber n)) = (n \<noteq> 0)"
| "truthy (Some (JString s)) = (s \<noteq> [])"
| "truthy (Some (JArray xs)) = True"
| "truthy (Some (JObject kvs)) = True"

text \<open>
  \<^verbatim>\<open>parsed.name\<close> for the five names the code reads, and \<^verbatim>\<open>parsed[key]\<close> for
  an own key. On \<^verbatim>\<open>null\<close> the read throws a TypeError; a boolean, a number and a
  string have none of the five properties, and \<^verbatim>\<open>Object.prototype\<close> has none either.
\<close>

fun get_prop :: "json \<Rightarrow> jsstring \<Rightarrow> js_error + json option" where
  "get_prop JNull name = Inl TypeError"
| "get_prop (JObject kvs) name = Inr (map_of kvs name)"
| "get_prop v name = Inr None"

text \<open>
  \<^verbatim>\<open>Object.keys(parsed).find(key => Array.isArray(parsed[key]))\<close>. The keys of a string
  are its indices, whose values are strings of one code unit; a boolean and a number have
  no keys: for those \<^verbatim>\<open>find\<close> returns \<^verbatim>\<open>undefined\<close>.
\<close>

fun firstArrayKey :: "json \<Rightarrow> jsstring option" where
  "firstArrayKey (JObject kvs) = find (\<lambda>key. is_array (map_of kvs key)) (object_keys kvs)"
| "firstArrayKey v = None"

text \<open>
  The chain of \<^verbatim>\<open>POST\<close> in \<^verbatim>\<open>src/app/api/extract-requirements/route.ts\<close>, from
  \<^verbatim>\<open>Array.isArray(parsed)\<close> to \<^verbatim>\<open>userStories = []\<close>. \<open>Inl\<close> is an exception thrown
  inside the \<^verbatim>\<open>try\<close> block, which its \<^verbatim>\<open>catch\<close> turns into the error
  \<^verbatim>\<open>Invalid JSON response from OpenAI\<close>. \<^verbatim>\<open>if (firstArrayKey)\<close> tests the key for
  truth, so an empty key counts as not found.
\<close>

definition single_story :: "json \<Rightarrow> js_error + json list" where
  "single_story parsed =
     (case get_prop parsed (js ''epicName'') of
        Inl e \<Rightarrow> Inl e
      | Inr a \<Rightarrow>
        if truthy a then Inr [parsed]
        else
          (case get_prop parsed (js ''requirement'') of
             Inl e \<Rightarrow> Inl e
           | Inr b \<Rightarrow>
             if truthy b then Inr [parsed]
             else
               (case get_prop parsed (js ''userStory'') of
                  Inl e \<Rightarrow> Inl e
                | Inr c \<Rightarrow> if truthy c then Inr [parsed] else Inr [])))"

definition detectUserStories :: "json \<Rightarrow> js_error + json list" where
  "detectUserStories parsed =
     (case parsed of
        JArray xs \<Rightarrow> Inr xs
      | _ \<Rightarrow>
        (case get_prop parsed (js ''userStories'') of
           Inl e \<Rightarrow> Inl e
         | Inr us \<Rightarrow>
           if truthy us \<and> is_array us then Inr (array_items us)
           else
             (case get_prop parsed (js ''requirements'') of
                Inl e \<Rightarrow> Inl e
              | Inr rq \<Rightarrow>
                if truthy rq \<and> is_array rq then Inr (array_items rq)
                else
                  (case firstArrayKey parsed of
                     Some key \<Rightarrow>
                       if key \<noteq> [] then
                         (case get_prop parsed key of
                            Inl e \<Rightarrow> Inl e
                          | Inr v \<Rightarrow> Inr (array_items v))
                       else single_story parsed
                   | None \<Rightarrow> single_story parsed))))"

section \<open>Notions used to state the properties\<close>


text \<open>
  The union of a sequence of keys in the order in which they are first seen: each key is
  kept where it occurs first, and its later occurrences are left out.
\<close>

fun first_seen :: "'a list \<Rightarrow> 'a list" where
  "first_seen [] = []"
| "first_seen (x # xs) = x # first_seen (removeAll x xs)"

text \<open>A record without the field \<open>h\<close>.\<close>

definition without_field :: "jsstring \<Rightarrow> UserStory \<Rightarrow> UserStory" where
  "without_field h row = filter (\<lambda>(key, v). key \<noteq> h) row"

section \<open>Evaluation\<close>

text \<open>The definitions a concrete run of the normalizer or of the table unfolds.\<close>

lemmas eval_defs = parseVTT_def enhanceTranscript_def js_def trim_def init_state_def
  iteration_def is_header_or_blank_def is_cue_id_def is_timing_def is_voice_def
  includesStr_def startsWith_def sublist_Cons_right voice_at_def is_space_def is_word_def
  is_punct_def is_line_terminator_def upper_unit_def toUpperCase_def capitalize_def
  repeat_at_def Let_def

lemmas table_defs = getHeaders_def object_keys_def is_array_index_def is_digit_def
  index_value_def set_add_def tsvContent_def rowsToCopy_def dataRow_def cell_def or_empty_def
  to_text_def inherited_text_def get_field_def object_prototype_names_def displayHeader_def
  space_capitals_def capitalize_first_def js_def trim_def is_space_def is_word_def
  toUpperCase_def upper_unit_def Let_def

section \<open>Properties of the voice-tag match and of the loop\<close>

lemma lazy_until_Some: "lazy_until lit s = Some g \<Longrightarrow> \<exists>r. s = g @ lit @ r"
proof (induction s arbitrary: g)
  case Nil
  then show ?case by (auto split: if_splits)
next
  case (Cons c cs)
  show ?case
  proof (cases "prefix lit (c # cs)")
    case True
    with Cons.prems show ?thesis by (auto simp: prefix_def)
  next
    case False
    with Cons.prems obtain g' where g': "lazy_until lit cs = Some g'" and g: "g = c # g'"
      by (auto split: if_splits)
    from Cons.IH [OF g'] obtain r where "cs = g' @ lit @ r" by blast
    with g show ?thesis by simp
  qed
qed

lemma voice_at_Some:
  assumes "voice_at s = Some g"
  shows "\<exists>p r. s = p @ g @ js ''</v>'' @ r"
proof -
  let ?d = "dropWhile (\<lambda>c. c \<noteq> cu CHR ''>'') (drop 2 s)"
  from assms obtain x t where d: "?d = x # t" and l: "lazy_until (js ''</v>'') t = Some g"
    by (auto simp: voice_at_def split: if_splits list.splits)
  from lazy_until_Some [OF l] obtain r where t: "t = g @ js ''</v>'' @ r" by blast
  have "s = take 2 s @ takeWhile (\<lambda>c. c \<noteq> cu CHR ''>'') (drop 2 s) @ ?d"
    by simp
  with d t have "s = (take 2 s @ takeWhile (\<lambda>c. c \<noteq> cu CHR ''>'') (drop 2 s) @ [x]) @ g @ js ''</v>'' @ r"
    by simp
  then show ?thesis by blast
qed

lemma voice_match_Some:
  "voice_match s = Some g \<Longrightarrow> \<exists>p r. s = p @ g @ js ''</v>'' @ r"
proof (induction s)
  case Nil
  then show ?case by simp
next
  case (Cons c cs)
  show ?case
  proof (cases "voice_at (c # cs)")
    case (Some g')
    with Cons.prems have "voice_at (c # cs) = Some g" by simp
    then show ?thesis by (rule voice_at_Some)
  next
    case None
    with Cons.prems have "voice_match cs = Some g" by simp
    from Cons.IH [OF this] obtain p r where "cs = p @ g @ js ''</v>'' @ r" by blast
    then have "c # cs = (c # p) @ g @ js ''</v>'' @ r" by simp
    then show ?thesis by blast
  qed
qed

lemma voice_match_closing: "voice_match s = Some g \<Longrightarrow> includesStr s (js ''</v>'')"
proof -
  assume "voice_match s = Some g"
  from voice_match_Some [OF this] obtain p r where "s = (p @ g) @ js ''</v>'' @ r" by auto
  then show ?thesis unfolding includesStr_def sublist_def by blast
qed




section \<open>White space\<close>













lemma split_on_none: "sep \<notin> set s \<Longrightarrow> split_on sep s = [s]"
  by (induction s) auto




section \<open>Headers and rows\<close>

lemma set_first_seen: "set (first_seen xs) = set xs"
  by (induction xs rule: first_seen.induct) auto

lemma distinct_first_seen: "distinct (first_seen xs)"
  by (induction xs rule: first_seen.induct) (auto simp: set_first_seen)

lemma fold_set_add:
  "fold (\<lambda>key hs. set_add hs key) ks hs = hs @ first_seen (filter (\<lambda>k. k \<notin> set hs) ks)"
proof (induction ks arbitrary: hs)
  case Nil
  show ?case by simp
next
  case (Cons k ks)
  show ?case
  proof (cases "k \<in> set hs")
    case True
    then have "set_add hs k = hs" by (simp add: set_add_def)
    with True show ?thesis by (simp add: Cons.IH)
  next
    case False
    then have a: "set_add hs k = hs @ [k]" by (simp add: set_add_def)
    have "filter (\<lambda>x. x \<notin> set (hs @ [k])) ks = removeAll k (filter (\<lambda>x. x \<notin> set hs) ks)"
      by (induction ks) auto
    with False a show ?thesis by (simp add: Cons.IH)
  qed
qed

lemma fold_stories:
  "fold (\<lambda>story headers. fold (\<lambda>key hs. set_add hs key) (object_keys story) headers) results hs =
   fold (\<lambda>key hs. set_add hs key) (concat (map object_keys results)) hs"
  by (induction results arbitrary: hs) simp_all

lemma getHeaders_first_seen: "getHeaders results = first_seen (concat (map object_keys results))"
  unfolding getHeaders_def fold_stories by (simp add: fold_set_add)

lemma set_object_keys: "set (object_keys obj) = fst ` set obj"
  by (auto simp: object_keys_def)

lemma object_keys_no_index:
  "\<forall>key \<in> fst ` set obj. \<not> is_array_index key \<Longrightarrow> object_keys obj = map fst obj"
proof -
  assume a: "\<forall>key \<in> fst ` set obj. \<not> is_array_index key"
  then have "filter is_array_index (map fst obj) = []"
    by (auto simp: filter_empty_conv)
  moreover from a have "filter (\<lambda>key. \<not> is_array_index key) (map fst obj) = map fst obj"
    by (auto simp: filter_id_conv)
  ultimately show ?thesis by (simp add: object_keys_def)
qed

lemma rowsToCopy_nths:
  "rowsToCopy results sel = (if sel = {} then results else nths results sel)"
  by (simp add: rowsToCopy_def nths_def case_prod_unfold)

lemma map_rowsToCopy:
  "map f (rowsToCopy results sel) = (if sel = {} then map f results else nths (map f results) sel)"
  by (simp add: rowsToCopy_nths nths_map)

lemma split_on_first: "sep \<notin> set a \<Longrightarrow> split_on sep (a @ sep # b) = a # split_on sep b"
  by (induction a) auto

lemma join_no_sep:
  "\<forall>h \<in> set hs. c \<notin> set h \<Longrightarrow> c \<notin> set sep \<Longrightarrow> c \<notin> set (join sep hs)"
  by (induction sep hs rule: join.induct) auto

lemma split_on_join:
  "xs \<noteq> [] \<Longrightarrow> \<forall>x \<in> set xs. sep \<notin> set x \<Longrightarrow> split_on sep (join [sep] xs) = xs"
proof (induction "[sep]" xs rule: join.induct)
  case 1
  then show ?case by simp
next
  case (2 x)
  then show ?case by (simp add: split_on_none)
next
  case (3 x y ys)
  then show ?case by (simp add: split_on_first)
qed

lemma cell_own: "map_of row header = Some v \<Longrightarrow> cell row header = v"
  by (simp add: cell_def get_field_def or_empty_def to_text_def)

lemma cell_missing:
  "map_of row header = None \<Longrightarrow> header \<notin> set object_prototype_names \<Longrightarrow> cell row header = []"
  by (simp add: cell_def get_field_def or_empty_def to_text_def)

lemma map_of_without:
  "map_of (without_field h row) k = (if k = h then None else map_of row k)"
  by (induction row) (auto simp: without_field_def)

section \<open>Searching for the first array-valued field\<close>

lemma find_first:
  "\<forall>x \<in> set xs. \<not> P x \<Longrightarrow> P y \<Longrightarrow> find P (xs @ y # ys) = Some y"
  by (induction xs) auto

lemma find_none: "\<forall>x \<in> set xs. \<not> P x \<Longrightarrow> find P xs = None"
  by (induction xs) auto

lemma is_array_iff: "is_array v \<longleftrightarrow> (\<exists>xs. v = Some (JArray xs))"
  by (cases v rule: is_array.cases) auto

lemma firstArrayKey_first:
  assumes "object_keys kvs = pre @ key # post"
    and "\<forall>k \<in> set pre. \<not> is_array (map_of kvs k)"
    and "map_of kvs key = Some (JArray xs)"
  shows "firstArrayKey (JObject kvs) = Some key"
  using assms by (simp add: find_first)

lemma firstArrayKey_none:
  "\<forall>k. \<not> is_array (map_of kvs k) \<Longrightarrow> firstArrayKey (JObject kvs) = None"
  by (simp add: find_none)

section \<open>The normalizer on the example of the specification\<close>

text \<open>
  C1. On the input of a timing line followed by the line \<^verbatim>\<open>Hello hello world.\<close> the
  specification expects \<^verbatim>\<open>Hello world.\<close>. The timing line sets \<^verbatim>\<open>skipNext\<close>, the
  plain-text branch then drops the dialogue line, and \<^verbatim>\<open>parseVTT\<close> returns the empty
  string; without the timing line the same dialogue line does come out as
  \<^verbatim>\<open>Hello world.\<close>.
\<close>

theorem parseVTT_drops_line_after_timing:
  "parseVTT (js (''00:00:01.000 --> 00:00:02.000'' @ [CHR 0x0A] @
                 ''Hello hello world.'' @ [CHR 0x0A])) = [] \<and>
   parseVTT (js (''Hello hello world.'' @ [CHR 0x0A])) = js ''Hello world.''"
  by (simp add: eval_defs)

section \<open>The line-classification loop and \<^verbatim>\<open>skipNext\<close>\<close>

text \<open>
  C2, as stated: \<^verbatim>\<open>skipNext\<close> is false at the end of every iteration of the loop, whatever
  branch handled the line. It is not: the cue-identifier branch sets the flag and leaves the
  iteration by \<^verbatim>\<open>continue\<close>, so after the line \<^verbatim>\<open>a-b-c-d\<close> the flag is true.
\<close>

theorem skipNext_true_after_cue_id:
  "skipNext (iteration (js ''a-b-c-d'') init_state) \<and> \<not> skipNext init_state"
  by (simp add: eval_defs)

text \<open>
  C2, amended. On a blank line or the header the iteration changes nothing, the flag
  included. On a cue-identifier line it leaves the flag true and the accumulator as it was.
  On a line that none of the first three tests catches (a voice-tag line or a plain line)
  it leaves the flag false. On a plain line the trimmed line is appended to the accumulator
  unless the flag was true when the line was reached; then the line is dropped.
\<close>

theorem iteration_skipNext:
  "(is_header_or_blank (trim raw) \<longrightarrow> iteration raw st = st) \<and>
   (\<not> is_header_or_blank (trim raw) \<and> is_cue_id (trim raw) \<longrightarrow>
      skipNext (iteration raw st) \<and> transcriptLines (iteration raw st) = transcriptLines st) \<and>
   (\<not> is_header_or_blank (trim raw) \<and> \<not> is_cue_id (trim raw) \<and> \<not> is_timing (trim raw) \<longrightarrow>
      \<not> skipNext (iteration raw st)) \<and>
   (\<not> is_header_or_blank (trim raw) \<and> \<not> is_cue_id (trim raw) \<and> \<not> is_timing (trim raw) \<and>
    \<not> is_voice (trim raw) \<longrightarrow>
      transcriptLines (iteration raw st) =
        (if skipNext st then transcriptLines st else transcriptLines st @ [trim raw]))"
  by (auto simp: iteration_def Let_def is_header_or_blank_def split: option.splits)

text \<open>
  The amended C2 at concrete lines: the plain line \<^verbatim>\<open>Hello\<close> is appended when the flag
  is false and dropped when it is true, and the flag is false afterwards; the line
  \<^verbatim>\<open>a-b-c-d\<close> is a cue identifier and sets the flag; a blank line keeps a set flag.
\<close>

theorem iteration_skipNext_witness:
  "\<not> is_header_or_blank (trim (js ''Hello'')) \<and> \<not> is_cue_id (trim (js ''Hello'')) \<and>
   \<not> is_timing (trim (js ''Hello'')) \<and> \<not> is_voice (trim (js ''Hello'')) \<and>
   transcriptLines (iteration (js ''Hello'') init_state) = [js ''Hello''] \<and>
   transcriptLines (iteration (js ''Hello'') (init_state\<lparr>skipNext := True\<rparr>)) = [] \<and>
   \<not> skipNext (iteration (js ''Hello'') (init_state\<lparr>skipNext := True\<rparr>)) \<and>
   is_cue_id (trim (js ''a-b-c-d'')) \<and> skipNext (iteration (js ''a-b-c-d'') init_state) \<and>
   is_header_or_blank (trim (js '' '')) \<and>
   skipNext (iteration (js '' '') (init_state\<lparr>skipNext := True\<rparr>))"
proof -
  have plain: "\<not> is_header_or_blank (trim (js ''Hello''))" "\<not> is_cue_id (trim (js ''Hello''))"
    "\<not> is_timing (trim (js ''Hello''))" "\<not> is_voice (trim (js ''Hello''))"
    "trim (js ''Hello'') = js ''Hello''"
    by (simp_all add: eval_defs)
  have ident: "\<not> is_header_or_blank (trim (js ''a-b-c-d''))" "is_cue_id (trim (js ''a-b-c-d''))"
    by (simp_all add: eval_defs)
  have blank: "is_header_or_blank (trim (js '' ''))"
    by (simp add: eval_defs)
  show ?thesis
    using plain ident blank
      iteration_skipNext [of "js ''Hello''" init_state]
      iteration_skipNext [of "js ''Hello''" "init_state\<lparr>skipNext := True\<rparr>"]
      iteration_skipNext [of "js ''a-b-c-d''" init_state]
      iteration_skipNext [of "js '' ''" "init_state\<lparr>skipNext := True\<rparr>"]
    by (simp add: init_state_def)
qed

section \<open>Voice-tag lines without a closing tag\<close>

text \<open>
  C9. A line that begins with \<^verbatim>\<open><v \<close> and holds no \<^verbatim>\<open></v>\<close> is not matched by the
  voice-tag pattern, and the iteration adds nothing of it to the accumulator (whether an
  earlier branch catches the line or not).
\<close>

theorem voice_line_without_close_dropped:
  assumes "is_voice (trim raw)" and "\<not> includesStr (trim raw) (js ''</v>'')"
  shows "voice_match (trim raw) = None \<and>
         transcriptLines (iteration raw st) = transcriptLines st"
proof -
  have "voice_match (trim raw) = None"
  proof (cases "voice_match (trim raw)")
    case None
    then show ?thesis .
  next
    case (Some g)
    then have "includesStr (trim raw) (js ''</v>'')" by (rule voice_match_closing)
    with assms(2) show ?thesis ..
  qed
  with assms(1) show ?thesis by (simp add: iteration_def Let_def)
qed

text \<open>
  C9 at a concrete cue of two lines: the first line \<^verbatim>\<open><v John>Hi there.\<close> is lost, and
  the transcript holds the second line only.
\<close>

theorem voice_line_without_close_dropped_witness:
  "is_voice (trim (js ''<v John>Hi there.'')) \<and>
   \<not> includesStr (trim (js ''<v John>Hi there.'')) (js ''</v>'') \<and>
   transcriptLines (iteration (js ''<v John>Hi there.'') init_state) = [] \<and>
   parseVTT (js (''<v John>Hi there.'' @ [CHR 0x0A] @ ''more text</v>'')) = js ''More text''"
proof -
  have v: "is_voice (trim (js ''<v John>Hi there.''))"
    by (simp add: eval_defs)
  have c: "\<not> includesStr (trim (js ''<v John>Hi there.'')) (js ''</v>'')"
    by (simp add: eval_defs)
  have p: "parseVTT (js (''<v John>Hi there.'' @ [CHR 0x0A] @ ''more text</v>'')) =
      js ''More text''"
    by (simp add: eval_defs)
  from voice_line_without_close_dropped [OF v c, of init_state] v c p
  show ?thesis by (simp add: init_state_def)
qed

section \<open>Timing lines and the header in the output\<close>




section \<open>Running the normalizer twice\<close>




section \<open>Headers of the table\<close>

text \<open>
  C7, as stated: the keys of a record are scanned in their insertion order. They are
  scanned in the order of \<^verbatim>\<open>Object.keys\<close>, which puts the keys that are array indices
  first, in ascending order: for one record with the keys \<^verbatim>\<open>b\<close>, \<^verbatim>\<open>2\<close>, \<^verbatim>\<open>a\<close>, \<^verbatim>\<open>1\<close>,
  inserted in this order, the headers are \<^verbatim>\<open>1\<close>, \<^verbatim>\<open>2\<close>, \<^verbatim>\<open>b\<close>, \<^verbatim>\<open>a\<close>.
\<close>

theorem getHeaders_index_keys_first:
  "getHeaders [[(js ''b'', js ''w''), (js ''2'', js ''x''), (js ''a'', js ''y''),
                (js ''1'', js ''z'')]] = [js ''1'', js ''2'', js ''b'', js ''a''] \<and>
   getHeaders [[(js ''b'', js ''w''), (js ''2'', js ''x''), (js ''a'', js ''y''),
                (js ''1'', js ''z'')]] \<noteq> [js ''b'', js ''2'', js ''a'', js ''1'']"
  by (simp add: table_defs)

text \<open>
  C7, amended. \<^verbatim>\<open>getHeaders\<close> returns the union of the keys of all records in the order
  in which they are first seen, scanning the records in sequence and the keys of a record in
  the order of \<^verbatim>\<open>Object.keys\<close>: every key once, and no other member. When no key of any
  record is an array index, that order is the insertion order of the keys. It is a function
  of the records, so two calls on the same records agree. On the two records
  \<^verbatim>\<open>{a:"1",b:"2"}\<close> and \<^verbatim>\<open>{a:"3",c:"4"}\<close> it returns \<^verbatim>\<open>a\<close>, \<^verbatim>\<open>b\<close>, \<^verbatim>\<open>c\<close>.
\<close>

theorem getHeaders_first_seen_union:
  "getHeaders results = first_seen (concat (map object_keys results)) \<and>
   ((\<forall>story \<in> set results. \<forall>key \<in> fst ` set story. \<not> is_array_index key) \<longrightarrow>
      getHeaders results = first_seen (concat (map (map fst) results))) \<and>
   distinct (getHeaders results) \<and>
   set (getHeaders results) = (\<Union>story \<in> set results. fst ` set story) \<and>
   getHeaders [[(js ''a'', js ''1''), (js ''b'', js ''2'')],
               [(js ''a'', js ''3''), (js ''c'', js ''4'')]] = [js ''a'', js ''b'', js ''c'']"
proof -
  have ex: "getHeaders [[(js ''a'', js ''1''), (js ''b'', js ''2'')],
               [(js ''a'', js ''3''), (js ''c'', js ''4'')]] = [js ''a'', js ''b'', js ''c'']"
    by (simp add: table_defs)
  have ins: "getHeaders results = first_seen (concat (map (map fst) results))"
    if "\<forall>story \<in> set results. \<forall>key \<in> fst ` set story. \<not> is_array_index key"
  proof -
    from that have "map object_keys results = map (map fst) results"
      by (intro map_cong refl object_keys_no_index) blast
    then show ?thesis by (simp only: getHeaders_first_seen)
  qed
  have "set (getHeaders results) = (\<Union>story \<in> set results. fst ` set story)"
    by (simp add: getHeaders_first_seen set_first_seen set_object_keys)
  with ex ins show ?thesis
    by (simp add: getHeaders_first_seen distinct_first_seen)
qed

text \<open>
  The amended C7 on three records without array indices, the last of which brings a key in
  front of known ones, and on a record with array indices.
\<close>

theorem getHeaders_first_seen_union_witness:
  "getHeaders [[(js ''b'', js ''1'')], [(js ''a'', js ''2''), (js ''b'', js ''3'')],
               [(js ''c'', js ''4''), (js ''a'', js ''5'')]] = [js ''b'', js ''a'', js ''c''] \<and>
   first_seen [js ''b'', js ''a'', js ''b'', js ''c'', js ''a''] = [js ''b'', js ''a'', js ''c''] \<and>
   object_keys [(js ''b'', js ''w''), (js ''10'', js ''x''), (js ''9'', js ''y'')] =
     [js ''9'', js ''10'', js ''b''] \<and>
   getHeaders [[(js ''b'', js ''w''), (js ''10'', js ''x''), (js ''9'', js ''y'')]] =
     [js ''9'', js ''10'', js ''b'']"
proof -
  let ?X = "[[(js ''b'', js ''1'')], [(js ''a'', js ''2''), (js ''b'', js ''3'')],
               [(js ''c'', js ''4''), (js ''a'', js ''5'')]]"
  let ?Y = "[[(js ''b'', js ''w''), (js ''10'', js ''x''), (js ''9'', js ''y'')]]"
  have n: "\<not> is_array_index (js ''a'')" "\<not> is_array_index (js ''b'')"
    "\<not> is_array_index (js ''c'')"
    by (simp_all add: is_array_index_def is_digit_def js_def)
  have d: "js ''a'' \<noteq> js ''b''" "js ''a'' \<noteq> js ''c''" "js ''b'' \<noteq> js ''c''"
    "js ''9'' \<noteq> js ''10''" "js ''9'' \<noteq> js ''b''" "js ''10'' \<noteq> js ''b''"
    by (simp_all add: js_def)
  have f: "first_seen [js ''b'', js ''a'', js ''b'', js ''c'', js ''a''] =
      [js ''b'', js ''a'', js ''c'']"
    using d by auto
  have k: "object_keys [(js ''b'', js ''w''), (js ''10'', js ''x''), (js ''9'', js ''y'')] =
     [js ''9'', js ''10'', js ''b'']"
    by (simp add: table_defs)
  have "\<forall>story \<in> set ?X. \<forall>key \<in> fst ` set story. \<not> is_array_index key"
    using n by simp
  with getHeaders_first_seen_union [of ?X]
  have "getHeaders ?X = first_seen (concat (map (map fst) ?X))"
    by blast
  also have "\<dots> = [js ''b'', js ''a'', js ''c'']"
    using f by simp
  finally have x: "getHeaders ?X = [js ''b'', js ''a'', js ''c'']" .
  from getHeaders_first_seen_union [of ?Y]
  have "getHeaders ?Y = first_seen (concat (map object_keys ?Y))"
    by blast
  also have "\<dots> = [js ''9'', js ''10'', js ''b'']"
    using d by (auto simp: k)
  finally have y: "getHeaders ?Y = [js ''9'', js ''10'', js ''b'']" .
  from x y f k show ?thesis by simp
qed

section \<open>The tab-separated text\<close>

text \<open>
  C3, as stated: the first row of the copied text holds the headers in their display form
  (camel case split into words, first letter in upper case). The display form is made for
  the header cells of the rendered table only; the copied text starts with the keys as they
  are. For one record with the key \<^verbatim>\<open>epicName\<close> the first row is \<^verbatim>\<open>epicName\<close>, not
  \<^verbatim>\<open>Epic Name\<close>.
\<close>

theorem tsv_header_row_not_display:
  "tsvContent [[(js ''epicName'', js ''Billing'')]] {} =
     js (''epicName'' @ [CHR 0x0A] @ ''Billing'') \<and>
   displayHeader (js ''epicName'') = js ''Epic Name'' \<and>
   hd (split_on (cu CHR 0x0A) (tsvContent [[(js ''epicName'', js ''Billing'')]] {})) \<noteq>
     join [cu CHR 0x09] (map displayHeader (getHeaders [[(js ''epicName'', js ''Billing'')]]))"
  by (simp add: table_defs)

text \<open>
  C3, amended. The copied text is the header row, a line feed and the data rows; the header
  row is the untransformed keys joined by tabs, and the cells of the data rows are looked up
  by the same untransformed keys. When no key holds a line feed, the header row is the first
  line of the text.
\<close>

theorem tsv_first_row_raw_headers:
  "tsvContent results sel =
     join [cu CHR 0x09] (getHeaders results) @ [cu CHR 0x0A] @
     join [cu CHR 0x0A]
       (map (\<lambda>row. join [cu CHR 0x09]
               (map (\<lambda>header. to_text (or_empty (get_field row header))) (getHeaders results)))
          (rowsToCopy results sel)) \<and>
   ((\<forall>h \<in> set (getHeaders results). cu CHR 0x0A \<notin> set h) \<longrightarrow>
      hd (split_on (cu CHR 0x0A) (tsvContent results sel)) =
        join [cu CHR 0x09] (getHeaders results))"
proof -
  have "hd (split_on (cu CHR 0x0A) (tsvContent results sel)) =
        join [cu CHR 0x09] (getHeaders results)"
    if "\<forall>h \<in> set (getHeaders results). cu CHR 0x0A \<notin> set h"
  proof -
    from that have "cu CHR 0x0A \<notin> set (join [cu CHR 0x09] (getHeaders results))"
      by (rule join_no_sep) simp
    then show ?thesis
      by (simp add: tsvContent_def Let_def split_on_first)
  qed
  moreover have "tsvContent results sel =
     join [cu CHR 0x09] (getHeaders results) @ [cu CHR 0x0A] @
     join [cu CHR 0x0A]
       (map (\<lambda>row. join [cu CHR 0x09]
               (map (\<lambda>header. to_text (or_empty (get_field row header))) (getHeaders results)))
          (rowsToCopy results sel))"
    by (simp add: tsvContent_def Let_def dataRow_def [abs_def] cell_def [abs_def])
  ultimately show ?thesis by blast
qed

text \<open>The amended C3 for one record with the key \<^verbatim>\<open>epicName\<close>.\<close>

theorem tsv_first_row_raw_headers_witness:
  "getHeaders [[(js ''epicName'', js ''Billing'')]] = [js ''epicName''] \<and>
   cu CHR 0x0A \<notin> set (js ''epicName'') \<and>
   hd (split_on (cu CHR 0x0A) (tsvContent [[(js ''epicName'', js ''Billing'')]] {})) =
     js ''epicName''"
proof -
  have h: "getHeaders [[(js ''epicName'', js ''Billing'')]] = [js ''epicName'']"
    by (simp add: table_defs)
  have n: "cu CHR 0x0A \<notin> set (js ''epicName'')"
    by (simp add: js_def)
  from h n
  have a: "\<forall>h \<in> set (getHeaders [[(js ''epicName'', js ''Billing'')]]). cu CHR 0x0A \<notin> set h"
    by simp
  from tsv_first_row_raw_headers [of "[[(js ''epicName'', js ''Billing'')]]" "{}"] a
  have "hd (split_on (cu CHR 0x0A) (tsvContent [[(js ''epicName'', js ''Billing'')]] {})) =
     join [cu CHR 0x09] (getHeaders [[(js ''epicName'', js ''Billing'')]])"
    by blast
  with h n show ?thesis by simp
qed

text \<open>
  C8, as stated: the text has one data row for each selected record with one field for each
  header, and a header that a record lacks gives an empty cell. Cells are joined as they
  are, so the value \<^verbatim>\<open>x<TAB>y\<close> under the one header \<^verbatim>\<open>a\<close> gives a row of two fields.
  And the lookup \<^verbatim>\<open>row[header]\<close> finds the members of \<^verbatim>\<open>Object.prototype\<close>: for the
  records \<^verbatim>\<open>{constructor:"x"}\<close> and \<^verbatim>\<open>{a:"1"}\<close> the cell of the second record under
  \<^verbatim>\<open>constructor\<close> is the text of a function.
\<close>

theorem tsv_cell_not_one_field:
  "getHeaders [[(js ''a'', js (''x'' @ [CHR 0x09] @ ''y''))]] = [js ''a''] \<and>
   tsvContent [[(js ''a'', js (''x'' @ [CHR 0x09] @ ''y''))]] {} =
     js (''a'' @ [CHR 0x0A] @ ''x'' @ [CHR 0x09] @ ''y'') \<and>
   split_on (cu CHR 0x09) (dataRow [js ''a''] [(js ''a'', js (''x'' @ [CHR 0x09] @ ''y''))]) =
     [js ''x'', js ''y''] \<and>
   map_of [(js ''a'', js ''1'')] (js ''constructor'') = None \<and>
   cell [(js ''a'', js ''1'')] (js ''constructor'') = js ''function Object() { [native code] }'' \<and>
   tsvContent [[(js ''constructor'', js ''x'')], [(js ''a'', js ''1'')]] {} =
     js (''constructor'' @ [CHR 0x09] @ ''a'' @ [CHR 0x0A] @ ''x'' @ [CHR 0x09] @ [CHR 0x0A] @
         ''function Object() { [native code] }'' @ [CHR 0x09] @ ''1'')"
  by (simp add: table_defs)

text \<open>
  C8, amended. The text is the header row, a line feed and the data rows joined by line
  feeds. The data rows are the rows of the selected records in their order, or of all
  records when the selection is empty: one row for each. A row is the join by tabs of one
  cell for each header, in the order of the headers. The cell is the value of the field
  when the record has the field, and empty when it has not and the header is no name of a
  member of \<^verbatim>\<open>Object.prototype\<close>; no case raises an error. Cells are not escaped: when
  there is a header and a row to copy, and no header and no cell of these rows holds a tab
  or a line feed, the lines of the text are the header row and the data rows, and the
  fields of each line are the headers and the cells.
\<close>

theorem tsv_data_rows:
  "rowsToCopy results sel = (if sel = {} then results else nths results sel) \<and>
   length (rowsToCopy results sel) =
     (if sel = {} then length results else card {i. i < length results \<and> i \<in> sel}) \<and>
   tsvContent results sel =
     join [cu CHR 0x09] (getHeaders results) @ [cu CHR 0x0A] @
     join [cu CHR 0x0A] (map (dataRow (getHeaders results)) (rowsToCopy results sel)) \<and>
   dataRow headers row = join [cu CHR 0x09] (map (cell row) headers) \<and>
   length (map (cell row) headers) = length headers \<and>
   (map_of row header = Some v \<longrightarrow> cell row header = v) \<and>
   (map_of row header = None \<and> header \<notin> set object_prototype_names \<longrightarrow>
      cell row header = []) \<and>
   (getHeaders results \<noteq> [] \<and> rowsToCopy results sel \<noteq> [] \<and>
    (\<forall>h \<in> set (getHeaders results). cu CHR 0x09 \<notin> set h \<and> cu CHR 0x0A \<notin> set h) \<and>
    (\<forall>r \<in> set (rowsToCopy results sel). \<forall>h \<in> set (getHeaders results).
        cu CHR 0x09 \<notin> set (cell r h) \<and> cu CHR 0x0A \<notin> set (cell r h)) \<longrightarrow>
      split_on (cu CHR 0x0A) (tsvContent results sel) =
        join [cu CHR 0x09] (getHeaders results) #
        map (dataRow (getHeaders results)) (rowsToCopy results sel) \<and>
      split_on (cu CHR 0x09) (join [cu CHR 0x09] (getHeaders results)) = getHeaders results \<and>
      (\<forall>r \<in> set (rowsToCopy results sel).
         split_on (cu CHR 0x09) (dataRow (getHeaders results) r) =
           map (cell r) (getHeaders results)))"
proof -
  let ?hs = "getHeaders results" and ?rows = "rowsToCopy results sel"
  have len: "length ?rows =
     (if sel = {} then length results else card {i. i < length results \<and> i \<in> sel})"
    by (simp add: rowsToCopy_nths length_nths)
  have whole: "tsvContent results sel =
     join [cu CHR 0x09] ?hs @ [cu CHR 0x0A] @ join [cu CHR 0x0A] (map (dataRow ?hs) ?rows)"
    by (simp add: tsvContent_def Let_def)
  have row: "dataRow headers row = join [cu CHR 0x09] (map (cell row) headers)"
    by (simp add: dataRow_def)
  have lines: "split_on (cu CHR 0x0A) (tsvContent results sel) =
        join [cu CHR 0x09] ?hs # map (dataRow ?hs) ?rows \<and>
      split_on (cu CHR 0x09) (join [cu CHR 0x09] ?hs) = ?hs \<and>
      (\<forall>r \<in> set ?rows. split_on (cu CHR 0x09) (dataRow ?hs r) = map (cell r) ?hs)"
    if hs: "?hs \<noteq> []" and rows: "?rows \<noteq> []"
      and h: "\<forall>h \<in> set ?hs. cu CHR 0x09 \<notin> set h \<and> cu CHR 0x0A \<notin> set h"
      and c: "\<forall>r \<in> set ?rows. \<forall>h \<in> set ?hs.
        cu CHR 0x09 \<notin> set (cell r h) \<and> cu CHR 0x0A \<notin> set (cell r h)"
  proof -
    have h1: "cu CHR 0x0A \<notin> set (join [cu CHR 0x09] ?hs)"
      using h by (intro join_no_sep) auto
    have "cu CHR 0x0A \<notin> set (dataRow ?hs r)" if "r \<in> set ?rows" for r
      unfolding dataRow_def using c that by (intro join_no_sep) auto
    then have r1: "\<forall>x \<in> set (map (dataRow ?hs) ?rows). cu CHR 0x0A \<notin> set x"
      by auto
    have "split_on (cu CHR 0x0A) (join [cu CHR 0x0A] (map (dataRow ?hs) ?rows)) =
        map (dataRow ?hs) ?rows"
      using rows r1 by (intro split_on_join) auto
    with h1 have a: "split_on (cu CHR 0x0A) (tsvContent results sel) =
        join [cu CHR 0x09] ?hs # map (dataRow ?hs) ?rows"
      by (simp add: whole split_on_first)
    have b: "split_on (cu CHR 0x09) (join [cu CHR 0x09] ?hs) = ?hs"
      using hs h by (intro split_on_join) auto
    have "split_on (cu CHR 0x09) (dataRow ?hs r) = map (cell r) ?hs" if "r \<in> set ?rows" for r
      unfolding dataRow_def using hs c that by (intro split_on_join) auto
    with a b show ?thesis by blast
  qed
  from len whole row lines cell_own [of row header v] cell_missing [of row header]
    rowsToCopy_nths [of results sel]
  show ?thesis by simp
qed

text \<open>
  The amended C8 on the two records \<^verbatim>\<open>{a:"1",b:"2"}\<close> and \<^verbatim>\<open>{a:"3",c:"4"}\<close>: with no
  selection the text has the header row and two data rows, with an empty cell for each
  missing field; with the second record selected it has that record's row only.
\<close>

theorem tsv_data_rows_witness:
  "split_on (cu CHR 0x0A) (tsvContent [[(js ''a'', js ''1''), (js ''b'', js ''2'')],
               [(js ''a'', js ''3''), (js ''c'', js ''4'')]] {}) =
     [js (''a'' @ [CHR 0x09] @ ''b'' @ [CHR 0x09] @ ''c''),
      js (''1'' @ [CHR 0x09] @ ''2'' @ [CHR 0x09]),
      js (''3'' @ [CHR 0x09] @ [CHR 0x09] @ ''4'')] \<and>
   split_on (cu CHR 0x09) (js (''3'' @ [CHR 0x09] @ [CHR 0x09] @ ''4'')) = [js ''3'', [], js ''4''] \<and>
   rowsToCopy [[(js ''a'', js ''1''), (js ''b'', js ''2'')],
               [(js ''a'', js ''3''), (js ''c'', js ''4'')]] {1} =
     [[(js ''a'', js ''3''), (js ''c'', js ''4'')]] \<and>
   map_of [(js ''a'', js ''1''), (js ''b'', js ''2'')] (js ''c'') = None \<and>
   js ''c'' \<notin> set object_prototype_names \<and>
   cell [(js ''a'', js ''1''), (js ''b'', js ''2'')] (js ''c'') = [] \<and>
   map_of [(js ''a'', js ''1''), (js ''b'', js ''2'')] (js ''a'') = Some (js ''1'') \<and>
   cell [(js ''a'', js ''1''), (js ''b'', js ''2'')] (js ''a'') = js ''1''"
proof -
  let ?r1 = "[(js ''a'', js ''1''), (js ''b'', js ''2'')]"
  let ?r2 = "[(js ''a'', js ''3''), (js ''c'', js ''4'')]"
  have h: "getHeaders [?r1, ?r2] = [js ''a'', js ''b'', js ''c'']"
    by (simp add: table_defs)
  have m: "map_of ?r1 (js ''c'') = None" "js ''c'' \<notin> set object_prototype_names"
    "map_of ?r1 (js ''a'') = Some (js ''1'')"
    by (simp_all add: object_prototype_names_def js_def)
  have c: "cell ?r1 (js ''a'') = js ''1''" "cell ?r1 (js ''b'') = js ''2''" "cell ?r1 (js ''c'') = []"
    "cell ?r2 (js ''a'') = js ''3''" "cell ?r2 (js ''b'') = []" "cell ?r2 (js ''c'') = js ''4''"
    by (simp_all add: table_defs)
  have t: "cu CHR 0x09 \<notin> set (js ''a'')" "cu CHR 0x09 \<notin> set (js ''b'')"
    "cu CHR 0x09 \<notin> set (js ''c'')" "cu CHR 0x0A \<notin> set (js ''a'')"
    "cu CHR 0x0A \<notin> set (js ''b'')" "cu CHR 0x0A \<notin> set (js ''c'')"
    "cu CHR 0x09 \<notin> set (js ''1'')" "cu CHR 0x09 \<notin> set (js ''2'')"
    "cu CHR 0x09 \<notin> set (js ''3'')" "cu CHR 0x09 \<notin> set (js ''4'')"
    "cu CHR 0x0A \<notin> set (js ''1'')" "cu CHR 0x0A \<notin> set (js ''2'')"
    "cu CHR 0x0A \<notin> set (js ''3'')" "cu CHR 0x0A \<notin> set (js ''4'')"
    by (simp_all add: js_def)
  have n: "nths [?r1, ?r2] {1} = [?r2]"
    by (simp add: nths_Cons)
  note a = tsv_data_rows [of "[?r1, ?r2]" "{}" "[js ''a'', js ''b'', js ''c'']" ?r1
      "js ''c''" "[]"]
  note b = tsv_data_rows [of "[?r1, ?r2]" "{1}" "[js ''a'', js ''b'', js ''c'']" ?r1
      "js ''a''" "js ''1''"]
  from a have rows: "rowsToCopy [?r1, ?r2] {} = [?r1, ?r2]"
    by simp
  have hyp: "getHeaders [?r1, ?r2] \<noteq> [] \<and> rowsToCopy [?r1, ?r2] {} \<noteq> [] \<and>
    (\<forall>h \<in> set (getHeaders [?r1, ?r2]). cu CHR 0x09 \<notin> set h \<and> cu CHR 0x0A \<notin> set h) \<and>
    (\<forall>r \<in> set (rowsToCopy [?r1, ?r2] {}). \<forall>h \<in> set (getHeaders [?r1, ?r2]).
        cu CHR 0x09 \<notin> set (cell r h) \<and> cu CHR 0x0A \<notin> set (cell r h))"
    using t by (simp add: h rows c)
  from a hyp
  have "split_on (cu CHR 0x0A) (tsvContent [?r1, ?r2] {}) =
      join [cu CHR 0x09] (getHeaders [?r1, ?r2]) #
      map (dataRow (getHeaders [?r1, ?r2])) (rowsToCopy [?r1, ?r2] {})"
    and "\<forall>r \<in> set (rowsToCopy [?r1, ?r2] {}).
      split_on (cu CHR 0x09) (dataRow (getHeaders [?r1, ?r2]) r) =
        map (cell r) (getHeaders [?r1, ?r2])"
    by blast+
  then have lines: "split_on (cu CHR 0x0A) (tsvContent [?r1, ?r2] {}) =
      [join [cu CHR 0x09] [js ''a'', js ''b'', js ''c''],
       join [cu CHR 0x09] [js ''1'', js ''2'', []],
       join [cu CHR 0x09] [js ''3'', [], js ''4'']]"
    and fields: "split_on (cu CHR 0x09) (join [cu CHR 0x09] [js ''3'', [], js ''4'']) =
      [js ''3'', [], js ''4'']"
    by (simp_all add: h rows c dataRow_def)
  from b n have sel: "rowsToCopy [?r1, ?r2] {1} = [?r2]"
    by simp
  from a m have c1: "cell ?r1 (js ''c'') = []"
    by blast
  from b m have c2: "cell ?r1 (js ''a'') = js ''1''"
    by blast
  from lines fields sel c1 c2 m show ?thesis
    by (simp add: js_def)
qed

text \<open>
  C10, as stated: for every collection, selection and header \<open>h\<close>, a record whose field
  \<open>h\<close> is the empty string is projected as the same record without the field. When no
  other record has the key, the record without the field loses the column: for the one
  record \<^verbatim>\<open>{a:"1",b:""}\<close> the text has the header \<^verbatim>\<open>b\<close> and an empty cell, and without
  the field it has neither. And for the header \<^verbatim>\<open>constructor\<close> the empty value gives an
  empty cell, while the absent field gives the text of the inherited function.
\<close>

theorem tsv_empty_value_not_as_absent:
  "without_field (js ''b'') [(js ''a'', js ''1''), (js ''b'', [])] = [(js ''a'', js ''1'')] \<and>
   tsvContent [[(js ''a'', js ''1''), (js ''b'', [])]] {} =
     js (''a'' @ [CHR 0x09] @ ''b'' @ [CHR 0x0A] @ ''1'' @ [CHR 0x09]) \<and>
   tsvContent [[(js ''a'', js ''1'')]] {} = js (''a'' @ [CHR 0x0A] @ ''1'') \<and>
   tsvContent [[(js ''a'', js ''1''), (js ''b'', [])]] {} \<noteq> tsvContent [[(js ''a'', js ''1'')]] {} \<and>
   tsvContent [[(js ''constructor'', [])], [(js ''constructor'', js ''x'')]] {} =
     js (''constructor'' @ [CHR 0x0A] @ [CHR 0x0A] @ ''x'') \<and>
   tsvContent [[], [(js ''constructor'', js ''x'')]] {} =
     js (''constructor'' @ [CHR 0x0A] @ ''function Object() { [native code] }'' @
         [CHR 0x0A] @ ''x'')"
  by (simp add: table_defs without_field_def)

text \<open>
  C10, amended. Let \<open>h\<close> be a header that is no name of a member of
  \<^verbatim>\<open>Object.prototype\<close>, and let one record of the collection have the empty string as
  the value of \<open>h\<close>. The cell of \<open>h\<close> is empty for this record and for the same record
  without the field; and when the collection with the field removed from this record has
  the same headers, the text is the same for every selection.
\<close>

theorem empty_value_same_as_absent:
  assumes "i < length results" and "map_of (results ! i) h = Some []"
    and "h \<notin> set object_prototype_names"
    and "getHeaders (results[i := without_field h (results ! i)]) = getHeaders results"
  shows "cell (results ! i) h = [] \<and> cell (without_field h (results ! i)) h = [] \<and>
         tsvContent (results[i := without_field h (results ! i)]) sel = tsvContent results sel"
proof -
  let ?r = "results ! i" and ?hs = "getHeaders results"
  have c: "cell (without_field h ?r) k = cell ?r k" for k
    using assms(2,3) by (simp add: cell_def get_field_def or_empty_def to_text_def map_of_without)
  then have "dataRow ?hs (without_field h ?r) = dataRow ?hs ?r"
    by (simp add: dataRow_def)
  moreover have "(map (dataRow ?hs) results)[i := dataRow ?hs ?r] = map (dataRow ?hs) results"
    using assms(1) by (simp add: list_update_same_conv)
  ultimately
  have "map (dataRow ?hs) (results[i := without_field h ?r]) = map (dataRow ?hs) results"
    by (simp add: map_update)
  then have "map (dataRow ?hs) (rowsToCopy (results[i := without_field h ?r]) sel) =
      map (dataRow ?hs) (rowsToCopy results sel)"
    by (simp only: map_rowsToCopy)
  then have "tsvContent (results[i := without_field h ?r]) sel = tsvContent results sel"
    by (simp add: tsvContent_def Let_def assms(4))
  moreover have "cell ?r h = []"
    using assms(2) by (simp add: cell_own)
  ultimately show ?thesis by (simp add: c)
qed

text \<open>
  The amended C10 for the records \<^verbatim>\<open>{a:"1",b:""}\<close> and \<^verbatim>\<open>{b:"2"}\<close>: with and without
  the field \<^verbatim>\<open>b\<close> in the first record the headers are \<^verbatim>\<open>a\<close>, \<^verbatim>\<open>b\<close>, and the texts
  agree.
\<close>

theorem empty_value_same_as_absent_witness:
  "map_of ([[(js ''a'', js ''1''), (js ''b'', [])], [(js ''b'', js ''2'')]] ! 0) (js ''b'') =
     Some [] \<and>
   js ''b'' \<notin> set object_prototype_names \<and>
   getHeaders [[(js ''a'', js ''1'')], [(js ''b'', js ''2'')]] =
     getHeaders [[(js ''a'', js ''1''), (js ''b'', [])], [(js ''b'', js ''2'')]] \<and>
   tsvContent [[(js ''a'', js ''1'')], [(js ''b'', js ''2'')]] {} =
     tsvContent [[(js ''a'', js ''1''), (js ''b'', [])], [(js ''b'', js ''2'')]] {} \<and>
   tsvContent [[(js ''a'', js ''1''), (js ''b'', [])], [(js ''b'', js ''2'')]] {} =
     js (''a'' @ [CHR 0x09] @ ''b'' @ [CHR 0x0A] @ ''1'' @ [CHR 0x09] @ [CHR 0x0A] @
         [CHR 0x09] @ ''2'')"
proof -
  let ?rs = "[[(js ''a'', js ''1''), (js ''b'', [])], [(js ''b'', js ''2'')]]"
  have i: "0 < length ?rs"
    by simp
  have m: "map_of (?rs ! 0) (js ''b'') = Some []"
    by (simp add: js_def)
  have p: "js ''b'' \<notin> set object_prototype_names"
    by (simp add: object_prototype_names_def js_def)
  have w: "?rs[0 := without_field (js ''b'') (?rs ! 0)] =
      [[(js ''a'', js ''1'')], [(js ''b'', js ''2'')]]"
    by (simp add: without_field_def js_def)
  have g: "getHeaders (?rs[0 := without_field (js ''b'') (?rs ! 0)]) = getHeaders ?rs"
    unfolding w by (simp add: table_defs)
  have t: "tsvContent ?rs {} =
     js (''a'' @ [CHR 0x09] @ ''b'' @ [CHR 0x0A] @ ''1'' @ [CHR 0x09] @ [CHR 0x0A] @
         [CHR 0x09] @ ''2'')"
    by (simp add: table_defs)
  from empty_value_same_as_absent [OF i m p g, of "{}"]
  have "tsvContent [[(js ''a'', js ''1'')], [(js ''b'', js ''2'')]] {} = tsvContent ?rs {}"
    unfolding w by blast
  with m p g t show ?thesis unfolding w by simp
qed

section \<open>The detection chain\<close>

text \<open>
  C6, as stated: the chain ends in the wrapped object when the object has one of the field
  names \<^verbatim>\<open>epicName\<close>, \<^verbatim>\<open>requirement\<close>, \<^verbatim>\<open>userStory\<close>, and never raises an exception. The
  code tests the values of the three fields for truth, so an object whose \<^verbatim>\<open>epicName\<close>
  is the empty string yields the empty collection; and on the payload \<^verbatim>\<open>null\<close> the read
  of \<^verbatim>\<open>parsed.userStories\<close> throws.
\<close>

theorem detect_falsy_field_and_null:
  "detectUserStories (JObject [(js ''epicName'', JString [])]) = Inr [] \<and>
   detectUserStories (JObject [(js ''epicName'', JString [])]) \<noteq>
     Inr [JObject [(js ''epicName'', JString [])]] \<and>
   detectUserStories JNull = Inl TypeError"
  by (simp add: detectUserStories_def single_story_def object_keys_def js_def)

text \<open>
  C6, amended. The statement is about every payload but two kinds: \<^verbatim>\<open>null\<close>, and an
  object that has neither a \<^verbatim>\<open>userStories\<close> array nor a \<^verbatim>\<open>requirements\<close> array and
  whose first array-valued field, in the order of \<^verbatim>\<open>Object.keys\<close>, has the empty name.
  For every other payload: a bare array is taken as it is. For an object: the array under
  \<^verbatim>\<open>userStories\<close>; else the array under \<^verbatim>\<open>requirements\<close>; else the array of the first
  array-valued field; when no field is array-valued, the object wrapped in a collection of
  one if the value of \<^verbatim>\<open>epicName\<close>, \<^verbatim>\<open>requirement\<close> or \<^verbatim>\<open>userStory\<close> is truthy, and the
  empty collection otherwise. A boolean, a number and a string give the empty collection.
  No payload other than \<^verbatim>\<open>null\<close> raises an exception.
\<close>

theorem detectUserStories_chain:
  "detectUserStories (JArray xs) = Inr xs \<and>
   (map_of kvs (js ''userStories'') = Some (JArray xs) \<longrightarrow>
      detectUserStories (JObject kvs) = Inr xs) \<and>
   (\<not> is_array (map_of kvs (js ''userStories'')) \<and>
    map_of kvs (js ''requirements'') = Some (JArray xs) \<longrightarrow>
      detectUserStories (JObject kvs) = Inr xs) \<and>
   (\<not> is_array (map_of kvs (js ''userStories'')) \<and>
    \<not> is_array (map_of kvs (js ''requirements'')) \<and>
    object_keys kvs = pre @ key # post \<and> (\<forall>k \<in> set pre. \<not> is_array (map_of kvs k)) \<and>
    map_of kvs key = Some (JArray xs) \<and> key \<noteq> [] \<longrightarrow>
      detectUserStories (JObject kvs) = Inr xs) \<and>
   ((\<forall>k. \<not> is_array (map_of kvs k)) \<longrightarrow>
      detectUserStories (JObject kvs) =
        (if truthy (map_of kvs (js ''epicName'')) \<or> truthy (map_of kvs (js ''requirement'')) \<or>
            truthy (map_of kvs (js ''userStory''))
         then Inr [JObject kvs] else Inr [])) \<and>
   detectUserStories (JBool b) = Inr [] \<and>
   detectUserStories (JNumber n) = Inr [] \<and>
   detectUserStories (JString s) = Inr [] \<and>
   (parsed \<noteq> JNull \<longrightarrow> (\<exists>stories. detectUserStories parsed = Inr stories))"
proof -
  have a: "detectUserStories (JArray xs) = Inr xs"
    by (simp add: detectUserStories_def)
  have b: "detectUserStories (JObject kvs) = Inr xs"
    if "map_of kvs (js ''userStories'') = Some (JArray xs)"
    using that by (simp add: detectUserStories_def)
  have c: "detectUserStories (JObject kvs) = Inr xs"
    if "\<not> is_array (map_of kvs (js ''userStories''))"
      and "map_of kvs (js ''requirements'') = Some (JArray xs)"
    using that by (simp add: detectUserStories_def)
  have d: "detectUserStories (JObject kvs) = Inr xs"
    if u: "\<not> is_array (map_of kvs (js ''userStories''))"
      and r: "\<not> is_array (map_of kvs (js ''requirements''))"
      and k: "object_keys kvs = pre @ key # post" "\<forall>k \<in> set pre. \<not> is_array (map_of kvs k)"
        "map_of kvs key = Some (JArray xs)"
      and ne: "key \<noteq> []"
  proof -
    from k have "firstArrayKey (JObject kvs) = Some key"
      by (rule firstArrayKey_first)
    with u r ne k(3) show ?thesis by (simp add: detectUserStories_def)
  qed
  have e: "detectUserStories (JObject kvs) =
        (if truthy (map_of kvs (js ''epicName'')) \<or> truthy (map_of kvs (js ''requirement'')) \<or>
            truthy (map_of kvs (js ''userStory''))
         then Inr [JObject kvs] else Inr [])"
    if n: "\<forall>k. \<not> is_array (map_of kvs k)"
  proof -
    from n have "firstArrayKey (JObject kvs) = None" by (rule firstArrayKey_none)
    with n show ?thesis by (simp add: detectUserStories_def single_story_def)
  qed
  have f: "detectUserStories (JBool b) = Inr []" "detectUserStories (JNumber n) = Inr []"
    "detectUserStories (JString s) = Inr []"
    by (simp_all add: detectUserStories_def single_story_def)
  have g: "\<exists>stories. detectUserStories parsed = Inr stories" if "parsed \<noteq> JNull"
    using that
    by (cases parsed)
      (auto simp: detectUserStories_def single_story_def split: option.splits sum.splits)
  from a b c d e f g show ?thesis by blast
qed

text \<open>
  The amended C6 on five objects and a number: an array under \<^verbatim>\<open>userStories\<close>; an array
  under \<^verbatim>\<open>requirements\<close>; the first array-valued field \<^verbatim>\<open>items\<close> behind a field that is
  no array; an object with a \<^verbatim>\<open>userStory\<close>; an object with neither.
\<close>

theorem detectUserStories_chain_witness:
  "detectUserStories (JObject [(js ''userStories'', JArray [JNull])]) = Inr [JNull] \<and>
   detectUserStories (JObject [(js ''requirements'', JArray [JNull])]) = Inr [JNull] \<and>
   object_keys [(js ''note'', JString (js ''x'')), (js ''items'', JArray [JString (js ''s'')])] =
     [js ''note'', js ''items''] \<and>
   detectUserStories (JObject [(js ''note'', JString (js ''x'')),
       (js ''items'', JArray [JString (js ''s'')])]) = Inr [JString (js ''s'')] \<and>
   detectUserStories (JObject [(js ''userStory'', JString (js ''As a user''))]) =
     Inr [JObject [(js ''userStory'', JString (js ''As a user''))]] \<and>
   detectUserStories (JObject [(js ''note'', JString (js ''x''))]) = Inr [] \<and>
   detectUserStories (JNumber 3) = Inr []"
proof -
  have n1: "\<forall>k. \<not> is_array (map_of [(js ''userStory'', JString (js ''As a user''))] k)"
    by simp
  have n2: "\<forall>k. \<not> is_array (map_of [(js ''note'', JString (js ''x''))] k)"
    by simp
  have k: "object_keys [(js ''note'', JString (js ''x'')),
      (js ''items'', JArray [JString (js ''s'')])] = [] @ js ''note'' # [js ''items'']"
    "object_keys [(js ''note'', JString (js ''x'')),
      (js ''items'', JArray [JString (js ''s'')])] = [js ''note''] @ js ''items'' # []"
    by (simp_all add: object_keys_def is_array_index_def is_digit_def js_def)
  have "js ''items'' \<noteq> []" "js ''items'' \<noteq> js ''note''"
    "js ''note'' \<noteq> js ''userStories''" "js ''items'' \<noteq> js ''userStories''"
    "js ''note'' \<noteq> js ''requirements''" "js ''items'' \<noteq> js ''requirements''"
    "js ''note'' \<noteq> js ''epicName''" "js ''note'' \<noteq> js ''requirement''"
    "js ''note'' \<noteq> js ''userStory''" "js ''userStory'' \<noteq> js ''epicName''"
    "js ''userStory'' \<noteq> js ''requirement''" "js ''As a user'' \<noteq> []"
    "js ''requirements'' \<noteq> js ''userStories''"
    by (simp_all add: js_def)
  with n1 n2 k
    detectUserStories_chain [of "[JNull]" "[(js ''userStories'', JArray [JNull])]"
      "[]" "[]" "[]" True 3 "[]" "JNumber 3"]
    detectUserStories_chain [of "[JNull]" "[(js ''requirements'', JArray [JNull])]"
      "[]" "[]" "[]" True 3 "[]" "JNumber 3"]
    detectUserStories_chain [of "[JString (js ''s'')]"
      "[(js ''note'', JString (js ''x'')), (js ''items'', JArray [JString (js ''s'')])]"
      "[js ''note'']" "js ''items''" "[]" True 3 "[]" "JNumber 3"]
    detectUserStories_chain [of "[]" "[(js ''userStory'', JString (js ''As a user''))]"
      "[]" "[]" "[]" True 3 "[]" "JNumber 3"]
    detectUserStories_chain [of "[]" "[(js ''note'', JString (js ''x''))]"
      "[]" "[]" "[]" True 3 "[]" "JNumber 3"]
  show ?thesis by simp
qed

end
